theory Spec2Isabelle
  imports Complex_Main
begin

section \<open>The gTTS player add-on: data model\<close>

text \<open>
  The module \<^verbatim>\<open>gtts_player/__init__.py\<close> registers a text-to-speech player with the
  host. It consists of a fixed language table, the enumeration of the voices, the
  synthesis routine that runs on a background thread and the completion handler that runs
  on the main thread. Exceptions are values of the type \<open>error\<close>; the host and the vendored
  synthesis library are parameters of the model.
\<close>

datatype error =
    AssertionError
  | ValueError
  | AttributeError
  | PlayerInterrupted
  | LibraryError string

text \<open>
  \<^verbatim>\<open>TTSVoice\<close> is the host's voice object; \<^verbatim>\<open>GTTSVoice\<close> subclasses it to store the
  language code of the synthesis service.
\<close>

record TTSVoice =
  name :: string
  lang :: string

record GTTSVoice = TTSVoice +
  gtts_lang :: string

subsection \<open>String operations of the Python runtime\<close>

text \<open>
  Codes, names and paths are lists of characters. \<open>upper\<close> and \<open>lower\<close> are \<^verbatim>\<open>str.upper\<close> and
  \<^verbatim>\<open>str.lower\<close> on ASCII text, which is all that the language table holds.
\<close>

definition upper_char :: "char \<Rightarrow> char" where
  "upper_char c =
     (case map_of (zip ''abcdefghijklmnopqrstuvwxyz'' ''ABCDEFGHIJKLMNOPQRSTUVWXYZ'') c of
        Some u \<Rightarrow> u
      | None \<Rightarrow> c)"

definition lower_char :: "char \<Rightarrow> char" where
  "lower_char c =
     (case map_of (zip ''ABCDEFGHIJKLMNOPQRSTUVWXYZ'' ''abcdefghijklmnopqrstuvwxyz'') c of
        Some l \<Rightarrow> l
      | None \<Rightarrow> c)"

definition upper :: "string \<Rightarrow> string" where
  "upper s = map upper_char s"

definition lower :: "string \<Rightarrow> string" where
  "lower s = map lower_char s"

text \<open>
  \<^verbatim>\<open>s.split(sep)\<close> for a one-character separator: the pieces between the occurrences
  of the separator, so a string with \<open>n\<close> separators gives \<open>n + 1\<close> pieces.
\<close>

fun split_str :: "char \<Rightarrow> string \<Rightarrow> string list" where
  "split_str sep [] = [[]]"
| "split_str sep (c # cs) =
     (if c = sep then [] # split_str sep cs
      else (case split_str sep cs of
              [] \<Rightarrow> [[c]]
            | w # ws \<Rightarrow> (c # w) # ws))"

text \<open>
  The text of a tag is a Python \<^verbatim>\<open>str\<close>, a sequence of Unicode code points, so it is a
  list of numbers here. \<open>is_space\<close> is \<^verbatim>\<open>str.isspace\<close> on one code point: the ASCII
  controls 9 to 13 and 28 to 31, the space, U+0085, U+00A0, U+1680, U+2000 to U+200A,
  U+2028, U+2029, U+202F, U+205F and U+3000. \<open>strip\<close> is \<^verbatim>\<open>s.strip()\<close>: the text
  without its leading and trailing whitespace.
\<close>

type_synonym pystr = "nat list"

definition is_space :: "nat \<Rightarrow> bool" where
  "is_space c =
     (c \<in> set [9, 10, 11, 12, 13, 28, 29, 30, 31, 32, 133, 160, 5760,
               8192, 8193, 8194, 8195, 8196, 8197, 8198, 8199, 8200, 8201, 8202,
               8232, 8233, 8239, 8287, 12288])"

definition strip :: "pystr \<Rightarrow> pystr" where
  "strip s = rev (dropWhile is_space (rev (dropWhile is_space s)))"

subsection \<open>The language table\<close>

text \<open>
  \<^verbatim>\<open>orig_langs\<close>, the language map of the synthesis service, in the order of the
  dictionary literal (\<^verbatim>\<open>items()\<close> iterates in insertion order).
\<close>

definition orig_langs :: "(string \<times> string) list" where
  "orig_langs =
    [(''af'', ''Afrikaans''),
     (''ar'', ''Arabic''),
     (''bn'', ''Bengali''),
     (''bs'', ''Bosnian''),
     (''ca'', ''Catalan''),
     (''cs'', ''Czech''),
     (''cy'', ''Welsh''),
     (''da'', ''Danish''),
     (''de'', ''German''),
     (''el'', ''Greek''),
     (''en-au'', ''English (Australia)''),
     (''en-ca'', ''English (Canada)''),
     (''en-gb'', ''English (UK)''),
     (''en-gh'', ''English (Ghana)''),
     (''en-ie'', ''English (Ireland)''),
     (''en-in'', ''English (India)''),
     (''en-ng'', ''English (Nigeria)''),
     (''en-nz'', ''English (New Zealand)''),
     (''en-ph'', ''English (Philippines)''),
     (''en-tz'', ''English (Tanzania)''),
     (''en-uk'', ''English (UK)''),
     (''en-us'', ''English (US)''),
     (''en-za'', ''English (South Africa)''),
     (''eo'', ''Esperanto''),
     (''es-es'', ''Spanish (Spain)''),
     (''es-us'', ''Spanish (United States)''),
     (''et'', ''Estonian''),
     (''fi'', ''Finnish''),
     (''fr-ca'', ''French (Canada)''),
     (''fr-fr'', ''French (France)''),
     (''gu'', ''Gujarati''),
     (''hi'', ''Hindi''),
     (''hr'', ''Croatian''),
     (''hu'', ''Hungarian''),
     (''hy'', ''Armenian''),
     (''id'', ''Indonesian''),
     (''is'', ''Icelandic''),
     (''it'', ''Italian''),
     (''ja'', ''Japanese''),
     (''jw'', ''Javanese''),
     (''km'', ''Khmer''),
     (''kn'', ''Kannada''),
     (''ko'', ''Korean''),
     (''la'', ''Latin''),
     (''lv'', ''Latvian''),
     (''mk'', ''Macedonian''),
     (''ml'', ''Malayalam''),
     (''mr'', ''Marathi''),
     (''my'', ''Myanmar (Burmese)''),
     (''ne'', ''Nepali''),
     (''nl'', ''Dutch''),
     (''no'', ''Norwegian''),
     (''pl'', ''Polish''),
     (''pt-br'', ''Portuguese (Brazil)''),
     (''pt-pt'', ''Portuguese (Portugal)''),
     (''ro'', ''Romanian''),
     (''ru'', ''Russian''),
     (''si'', ''Sinhala''),
     (''sk'', ''Slovak''),
     (''sq'', ''Albanian''),
     (''sr'', ''Serbian''),
     (''su'', ''Sundanese''),
     (''sv'', ''Swedish''),
     (''sw'', ''Swahili''),
     (''ta'', ''Tamil''),
     (''te'', ''Telugu''),
     (''th'', ''Thai''),
     (''tl'', ''Filipino''),
     (''tr'', ''Turkish''),
     (''uk'', ''Ukrainian''),
     (''ur'', ''Urdu''),
     (''vi'', ''Vietnamese''),
     (''zh-cn'', ''Chinese (Mandarin/China)''),
     (''zh-tw'', ''Chinese (Mandarin/Taiwan)'')]"

section \<open>Enumerating the voices\<close>

text \<open>
  The loop of \<^verbatim>\<open>get_available_voices\<close> over the items of the table, with the list
  \<^verbatim>\<open>voices\<close> as accumulator. \<open>compatMap\<close> is the host's table \<^verbatim>\<open>anki.lang.compatMap\<close>,
  a parameter here. The tuple assignment \<^verbatim>\<open>head, tail = code.split("-")\<close> raises
  \<^verbatim>\<open>ValueError\<close> unless the split gives exactly two pieces. The test
  \<^verbatim>\<open>if not std_code\<close> skips an entry whose lookup gives \<^verbatim>\<open>None\<close> or the empty string.
\<close>

fun voices_loop ::
  "(string \<rightharpoonup> string) \<Rightarrow> (string \<times> string) list \<Rightarrow> GTTSVoice list \<Rightarrow> error + GTTSVoice list"
where
  "voices_loop compatMap [] voices = Inr voices"
| "voices_loop compatMap ((code, nm) # rest) voices =
     (if CHR ''-'' \<in> set code then
        (case split_str CHR ''-'' code of
           [head, tail] \<Rightarrow>
             voices_loop compatMap rest
               (voices @ [\<lparr>name = ''gTTS'', lang = head @ ''_'' @ upper tail, gtts_lang = code\<rparr>])
         | _ \<Rightarrow> Inl ValueError)
      else
        (case compatMap code of
           None \<Rightarrow> voices_loop compatMap rest voices
         | Some std_code \<Rightarrow>
             if std_code = [] then voices_loop compatMap rest voices
             else voices_loop compatMap rest
                    (voices @ [\<lparr>name = ''gTTS'', lang = std_code, gtts_lang = code\<rparr>])))"

definition get_available_voices :: "(string \<rightharpoonup> string) \<Rightarrow> error + GTTSVoice list" where
  "get_available_voices compatMap = voices_loop compatMap orig_langs []"

section \<open>Synthesis and completion\<close>

subsection \<open>Tags, floats and the host\<close>

text \<open>
  The speed of a tag is a Python float. A finite float is a rational number, and the
  comparisons of finite floats are those of the rationals; the infinities and the NaN
  compare as IEEE 754 says: every comparison with a NaN is false.
\<close>

datatype pyfloat = Finite rat | PosInf | NegInf | NaN

fun float_lt :: "pyfloat \<Rightarrow> pyfloat \<Rightarrow> bool" where
  "float_lt NaN y = False"
| "float_lt x NaN = False"
| "float_lt (Finite a) (Finite b) = (a < b)"
| "float_lt (Finite a) PosInf = True"
| "float_lt (Finite a) NegInf = False"
| "float_lt PosInf y = False"
| "float_lt NegInf NegInf = False"
| "float_lt NegInf y = True"

fun float_ge :: "pyfloat \<Rightarrow> pyfloat \<Rightarrow> bool" where
  "float_ge NaN y = False"
| "float_ge x NaN = False"
| "float_ge (Finite a) (Finite b) = (a \<ge> b)"
| "float_ge (Finite a) PosInf = False"
| "float_ge (Finite a) NegInf = True"
| "float_ge PosInf y = True"
| "float_ge NegInf NegInf = True"
| "float_ge NegInf y = False"

text \<open>
  \<^verbatim>\<open>TTSTag\<close> and \<^verbatim>\<open>AVTag\<close> of \<^verbatim>\<open>anki.sound\<close>: an \<^verbatim>\<open>AVTag\<close> is a TTS tag or a
  sound or video tag with its file name. The field \<^verbatim>\<open>lang\<close> of the tag is \<open>tag_lang\<close>
  here, the voice has a field of that name already.
\<close>

record TTSTag =
  field_text :: pystr
  tag_lang :: string
  voices :: "string list"
  speed :: pyfloat
  other_args :: "string list"

datatype AVTag = TTS TTSTag | SoundOrVideo string

text \<open>\<^verbatim>\<open>TTSVoiceMatch\<close> of \<^verbatim>\<open>aqt.tts\<close>, the result of \<^verbatim>\<open>voice_for_tag\<close>.\<close>

record TTSVoiceMatch =
  voice :: GTTSVoice
  rank :: int

text \<open>
  What the player calls and does not define: \<^verbatim>\<open>voice_for_tag\<close> and
  \<^verbatim>\<open>temp_file_for_tag_and_voice\<close>, inherited from the host's player class, and the
  vendored library. \<open>gTTS\<close> stands for the constructor call followed by \<^verbatim>\<open>save\<close>: from
  the text, the language, \<^verbatim>\<open>lang_check\<close>, \<^verbatim>\<open>slow\<close> and the path it gives the
  exception raised, if any.
\<close>

record env =
  voice_for_tag :: "TTSTag \<Rightarrow> TTSVoiceMatch option"
  temp_file_for_tag_and_voice :: "TTSTag \<Rightarrow> GTTSVoice \<Rightarrow> string"
  gTTS :: "pystr \<Rightarrow> string \<Rightarrow> bool \<Rightarrow> bool \<Rightarrow> string \<Rightarrow> error option"

text \<open>
  The effects, in the order in which they happen: a call of the library with its
  arguments \<^verbatim>\<open>text\<close>, \<^verbatim>\<open>lang\<close>, \<^verbatim>\<open>lang_check\<close> and \<^verbatim>\<open>slow\<close>, a file written, a
  file inserted into the host's queue, the callback \<^verbatim>\<open>cb\<close> called.
\<close>

datatype event =
    GttsCall pystr string bool bool
  | FileWrite string
  | InsertFile string
  | DoneCallback

text \<open>
  The state: the attribute \<^verbatim>\<open>_tmpfile\<close> of the player (\<open>None\<close> while it has never
  been assigned), the paths that exist on disk, the queue of \<^verbatim>\<open>av_player\<close> and the
  effects so far.
\<close>

record player_state =
  tmpfile :: "string option"
  files :: "string set"
  queue :: "string list"
  trace :: "event list"

datatype outcome = Returned | Raised error

text \<open>The future handed to \<^verbatim>\<open>_on_done\<close>: \<^verbatim>\<open>result()\<close> returns or raises.\<close>

datatype future = Done | Failed error

subsection \<open>The two methods\<close>

text \<open>
  \<^verbatim>\<open>_play\<close>. An exception leaves the assignments made before it in place, so the state
  is returned in every case.
\<close>

definition play :: "env \<Rightarrow> player_state \<Rightarrow> AVTag \<Rightarrow> outcome \<times> player_state" where
  "play e s tag =
     (case tag of
        SoundOrVideo f \<Rightarrow> (Raised AssertionError, s)
      | TTS t \<Rightarrow>
          (case voice_for_tag e t of
             None \<Rightarrow> (Raised AssertionError, s)
           | Some match \<Rightarrow>
               if strip (field_text t) = [] then (Returned, s)
               else
                 let path = temp_file_for_tag_and_voice e t (voice match) @ ''.mp3'';
                     s1 = s\<lparr>tmpfile := Some path\<rparr>
                 in if path \<in> files s1 then (Returned, s1)
                    else
                      let slow = float_lt (speed t) (Finite 1);
                          s2 = s1\<lparr>trace := trace s1 @
                                 [GttsCall (field_text t) (gtts_lang (voice match)) False slow]\<rparr>
                      in (case gTTS e (field_text t) (gtts_lang (voice match)) False slow path of
                            Some err \<Rightarrow> (Raised err, s2)
                          | None \<Rightarrow>
                              (Returned, s2\<lparr>files := insert path (files s2),
                                            trace := trace s2 @ [FileWrite path]\<rparr>))))"

text \<open>
  \<^verbatim>\<open>_on_done\<close>. Reading \<^verbatim>\<open>self._tmpfile\<close> raises \<^verbatim>\<open>AttributeError\<close> when the attribute
  was never assigned. \<^verbatim>\<open>insert_file\<close> puts the file at the front of the queue.
\<close>

definition on_done :: "player_state \<Rightarrow> future \<Rightarrow> outcome \<times> player_state" where
  "on_done s ret =
     (case ret of
        Failed err \<Rightarrow> if err = PlayerInterrupted then (Returned, s) else (Raised err, s)
      | Done \<Rightarrow>
          (case tmpfile s of
             None \<Rightarrow> (Raised AttributeError, s)
           | Some path \<Rightarrow>
               let s1 = s\<lparr>queue := path # queue s, trace := trace s @ [InsertFile path]\<rparr>;
                   s2 = s1\<lparr>trace := trace s1 @ [DoneCallback]\<rparr>
               in (Returned, s2)))"

subsection \<open>A concrete host and concrete tags\<close>

text \<open>
  A host in which every tag matches the voice of \<^verbatim>\<open>en-us\<close>, the file name is made from
  the language of the voice and the library succeeds; a second one in which the library
  fails. They are the inputs on which the theorems below are instantiated.
\<close>

definition example_voice :: GTTSVoice where
  "example_voice = \<lparr>name = ''gTTS'', lang = ''en_US'', gtts_lang = ''en-us''\<rparr>"

definition example_env :: env where
  "example_env =
     \<lparr>voice_for_tag = (\<lambda>t. Some \<lparr>voice = example_voice, rank = 0\<rparr>),
      temp_file_for_tag_and_voice = (\<lambda>t v. ''/tmp/tts-'' @ gtts_lang v),
      gTTS = (\<lambda>text lng chk slow path. None)\<rparr>"

definition failing_env :: env where
  "failing_env = example_env\<lparr>gTTS := (\<lambda>text lng chk slow path. Some (LibraryError ''network''))\<rparr>"

definition example_tag :: "pystr \<Rightarrow> pyfloat \<Rightarrow> TTSTag" where
  "example_tag txt sp =
     \<lparr>field_text = txt, tag_lang = ''en_US'', voices = [''gTTS''], speed = sp, other_args = []\<rparr>"

text \<open>
  Three texts: two spaces, one no-break space (U+00A0), and \<^verbatim>\<open>hello\<close> between two
  spaces.
\<close>

definition blank_text :: pystr where
  "blank_text = [32, 32]"

definition nbsp_text :: pystr where
  "nbsp_text = [160]"

definition hello_text :: pystr where
  "hello_text = [32, 104, 101, 108, 108, 111, 32]"

definition fresh_state :: player_state where
  "fresh_state = \<lparr>tmpfile = None, files = {}, queue = [], trace = []\<rparr>"

definition cached_state :: player_state where
  "cached_state = \<lparr>tmpfile = None, files = {''/tmp/tts-en-us.mp3''}, queue = [], trace = []\<rparr>"

definition playing_state :: player_state where
  "playing_state =
     \<lparr>tmpfile = Some ''/tmp/tts-en-us.mp3'', files = {''/tmp/tts-en-us.mp3''},
      queue = [''next.mp3''], trace = []\<rparr>"

section \<open>Properties of the enumeration\<close>

subsection \<open>The loop on an arbitrary table\<close>

lemma voices_loop_mono:
  "voices_loop cm items acc = Inr vs \<Longrightarrow> set acc \<subseteq> set vs"
  by (induction cm items acc rule: voices_loop.induct)
     (auto split: if_splits list.splits option.splits)

text \<open>
  Every voice that the loop adds has the name \<^verbatim>\<open>gTTS\<close>, a non-empty standard code and the
  code of an entry of the table; its standard code is built from the two pieces of a code
  with a separator, and is the value of \<open>compatMap\<close> otherwise.
\<close>

lemma voices_loop_sound:
  "voices_loop cm items acc = Inr vs \<Longrightarrow> v \<in> set vs \<Longrightarrow> v \<notin> set acc \<Longrightarrow>
     name v = ''gTTS'' \<and> lang v \<noteq> [] \<and> (\<exists>nm. (gtts_lang v, nm) \<in> set items) \<and>
     (if CHR ''-'' \<in> set (gtts_lang v)
      then \<exists>h t. split_str CHR ''-'' (gtts_lang v) = [h, t] \<and> lang v = h @ ''_'' @ upper t
      else cm (gtts_lang v) = Some (lang v))"
proof (induction cm items acc rule: voices_loop.induct)
  case (1 cm voices)
  then show ?case by simp
next
  case (2 cm code nm rest voices)
  show ?case
  proof (cases "CHR ''-'' \<in> set code")
    case dash: True
    with "2.prems"(1) obtain h t where ht: "split_str CHR ''-'' code = [h, t]"
      by (auto split: list.splits)
    let ?nv = "\<lparr>name = ''gTTS'', lang = h @ ''_'' @ upper t, gtts_lang = code\<rparr>"
    from "2.prems"(1) dash ht have run: "voices_loop cm rest (voices @ [?nv]) = Inr vs"
      by simp
    show ?thesis
    proof (cases "v = ?nv")
      case True
      then show ?thesis using dash ht by auto
    next
      case False
      with "2.prems"(3) have "v \<notin> set (voices @ [?nv])" by simp
      from "2.IH"(1)[OF dash ht _ _ run "2.prems"(2) this] show ?thesis
        by auto
    qed
  next
    case nodash: False
    show ?thesis
    proof (cases "cm code")
      case None
      with "2.prems"(1) nodash have run: "voices_loop cm rest voices = Inr vs" by simp
      from "2.IH"(2)[OF nodash None run "2.prems"(2,3)] show ?thesis by auto
    next
      case (Some s)
      show ?thesis
      proof (cases "s = []")
        case True
        with "2.prems"(1) nodash Some have run: "voices_loop cm rest voices = Inr vs" by simp
        from "2.IH"(3)[OF nodash Some True run "2.prems"(2,3)] show ?thesis by auto
      next
        case nonempty: False
        let ?nv = "\<lparr>name = ''gTTS'', lang = s, gtts_lang = code\<rparr>"
        from "2.prems"(1) nodash Some nonempty
        have run: "voices_loop cm rest (voices @ [?nv]) = Inr vs" by simp
        show ?thesis
        proof (cases "v = ?nv")
          case True
          then show ?thesis using nodash Some nonempty by auto
        next
          case False
          with "2.prems"(3) have "v \<notin> set (voices @ [?nv])" by simp
          from "2.IH"(4)[OF nodash Some nonempty run "2.prems"(2) this] show ?thesis by auto
        qed
      qed
    qed
  qed
qed

text \<open>An entry with a separator gives its voice, when the loop returns.\<close>

lemma voices_loop_dash:
  "voices_loop cm items acc = Inr vs \<Longrightarrow> (code, nm) \<in> set items \<Longrightarrow> CHR ''-'' \<in> set code \<Longrightarrow>
     \<exists>h t. split_str CHR ''-'' code = [h, t] \<and>
       \<lparr>name = ''gTTS'', lang = h @ ''_'' @ upper t, gtts_lang = code\<rparr> \<in> set vs"
proof (induction cm items acc rule: voices_loop.induct)
  case (1 cm voices)
  then show ?case by simp
next
  case (2 cm c n rest voices)
  show ?case
  proof (cases "(code, nm) = (c, n)")
    case True
    with "2.prems" obtain h t where ht: "split_str CHR ''-'' code = [h, t]"
      by (auto split: list.splits)
    let ?nv = "\<lparr>name = ''gTTS'', lang = h @ ''_'' @ upper t, gtts_lang = code\<rparr>"
    from "2.prems" True ht have "voices_loop cm rest (voices @ [?nv]) = Inr vs" by simp
    from voices_loop_mono[OF this] have "?nv \<in> set vs" by auto
    with ht show ?thesis by blast
  next
    case False
    with "2.prems"(2) have mem: "(code, nm) \<in> set rest" by auto
    from "2.prems"(1) "2.IH" mem "2.prems"(3) show ?thesis
      by (auto split: if_splits list.splits option.splits)
  qed
qed

text \<open>An entry without a separator gives its voice when \<open>compatMap\<close> has a non-empty value.\<close>

lemma voices_loop_compat:
  "voices_loop cm items acc = Inr vs \<Longrightarrow> (code, nm) \<in> set items \<Longrightarrow> CHR ''-'' \<notin> set code \<Longrightarrow>
     cm code = Some s \<Longrightarrow> s \<noteq> [] \<Longrightarrow>
       \<lparr>name = ''gTTS'', lang = s, gtts_lang = code\<rparr> \<in> set vs"
proof (induction cm items acc rule: voices_loop.induct)
  case (1 cm voices)
  then show ?case by simp
next
  case (2 cm c n rest voices)
  show ?case
  proof (cases "(code, nm) = (c, n)")
    case True
    let ?nv = "\<lparr>name = ''gTTS'', lang = s, gtts_lang = code\<rparr>"
    from "2.prems" True have "voices_loop cm rest (voices @ [?nv]) = Inr vs" by simp
    from voices_loop_mono[OF this] show ?thesis by auto
  next
    case False
    with "2.prems"(2) have mem: "(code, nm) \<in> set rest" by auto
    from "2.prems"(1) "2.IH" mem "2.prems"(3,4,5) show ?thesis
      by (auto split: if_splits list.splits option.splits)
  qed
qed

text \<open>The loop raises nothing when every code with a separator has exactly one.\<close>

lemma voices_loop_total:
  "list_all (\<lambda>(code, nm). CHR ''-'' \<notin> set code \<or> length (split_str CHR ''-'' code) = 2) items \<Longrightarrow>
     \<exists>vs. voices_loop cm items acc = Inr vs"
proof (induction cm items acc rule: voices_loop.induct)
  case (1 cm voices)
  then show ?case by simp
next
  case (2 cm c n rest voices)
  then show ?case
    by (auto split: list.splits option.splits simp: length_Suc_conv)
qed

subsection \<open>The table of the module\<close>

lemma orig_langs_two_pieces:
  "list_all (\<lambda>(code, nm). CHR ''-'' \<notin> set code \<or> length (split_str CHR ''-'' code) = 2) orig_langs"
  by (simp add: orig_langs_def)

text \<open>The first piece of every code of the table is in lower case already.\<close>

lemma orig_langs_heads:
  "list_all (\<lambda>(code, nm). case split_str CHR ''-'' code of [] \<Rightarrow> False | h # r \<Rightarrow> lower h = h)
     orig_langs"
  by (simp add: orig_langs_def lower_def lower_char_def)

lemma get_available_voices_returns: "\<exists>vs. get_available_voices compatMap = Inr vs"
  unfolding get_available_voices_def
  by (rule voices_loop_total [OF orig_langs_two_pieces])

text \<open>
  Claim C1. For every entry of the language table whose code contains the separator
  \<^verbatim>\<open>-\<close>, the code splits into a head and a tail, \<^verbatim>\<open>get_available_voices\<close> returns, and its
  result holds the voice of that entry whose standard code is the head in lower case, an
  underscore and the tail in upper case. This holds whatever \<open>compatMap\<close> is.
\<close>

theorem region_code_normalized:
  assumes "(code, nm) \<in> set orig_langs" and "CHR ''-'' \<in> set code"
  shows "\<exists>head tail vs. split_str CHR ''-'' code = [head, tail] \<and>
           get_available_voices compatMap = Inr vs \<and>
           \<lparr>name = ''gTTS'', lang = lower head @ ''_'' @ upper tail, gtts_lang = code\<rparr> \<in> set vs"
proof -
  obtain vs where vs: "get_available_voices compatMap = Inr vs"
    using get_available_voices_returns by blast
  then have run: "voices_loop compatMap orig_langs [] = Inr vs"
    by (simp add: get_available_voices_def)
  from voices_loop_dash [OF run assms] obtain h t where
    ht: "split_str CHR ''-'' code = [h, t]" and
    mem: "\<lparr>name = ''gTTS'', lang = h @ ''_'' @ upper t, gtts_lang = code\<rparr> \<in> set vs"
    by blast
  from orig_langs_heads assms(1) ht have "lower h = h"
    by (auto simp: list_all_iff)
  with ht vs mem show ?thesis by auto
qed

text \<open>The entry \<^verbatim>\<open>en-gb\<close> gives the voice with the standard code \<^verbatim>\<open>en_GB\<close>.\<close>

theorem region_code_normalized_witness:
  "(''en-gb'', ''English (UK)'') \<in> set orig_langs \<and> CHR ''-'' \<in> set ''en-gb'' \<and>
   (\<exists>vs. get_available_voices Map.empty = Inr vs \<and>
      \<lparr>name = ''gTTS'', lang = ''en_GB'', gtts_lang = ''en-gb''\<rparr> \<in> set vs)"
proof -
  have a: "(''en-gb'', ''English (UK)'') \<in> set orig_langs" by (simp add: orig_langs_def)
  have b: "CHR ''-'' \<in> set ''en-gb''" by simp
  from region_code_normalized [OF a b, of Map.empty] a b show ?thesis
    by (auto simp: lower_def lower_char_def upper_def upper_char_def)
qed

text \<open>
  Claim C2. For every entry of the language table whose code contains no separator,
  the result of \<^verbatim>\<open>get_available_voices\<close> holds a voice with that code if and only if
  \<open>compatMap\<close> maps the code to a standard code, that is, to a non-empty string; such a
  voice has the name \<^verbatim>\<open>gTTS\<close> and the standard code that \<open>compatMap\<close> gives.
\<close>

theorem bare_code_iff_compat:
  assumes "(code, nm) \<in> set orig_langs" and "CHR ''-'' \<notin> set code"
  shows "\<exists>vs. get_available_voices compatMap = Inr vs \<and>
           ((\<exists>v \<in> set vs. gtts_lang v = code) \<longleftrightarrow>
            (\<exists>std_code. compatMap code = Some std_code \<and> std_code \<noteq> [])) \<and>
           (\<forall>v \<in> set vs. gtts_lang v = code \<longrightarrow>
              name v = ''gTTS'' \<and> compatMap code = Some (lang v))"
proof -
  obtain vs where vs: "get_available_voices compatMap = Inr vs"
    using get_available_voices_returns by blast
  then have run: "voices_loop compatMap orig_langs [] = Inr vs"
    by (simp add: get_available_voices_def)
  have emitted: "name v = ''gTTS'' \<and> lang v \<noteq> [] \<and> compatMap code = Some (lang v)"
    if "v \<in> set vs" "gtts_lang v = code" for v
    using voices_loop_sound [OF run that(1)] that(2) assms(2) by auto
  have "\<exists>v \<in> set vs. gtts_lang v = code"
    if "compatMap code = Some s" "s \<noteq> []" for s
    using voices_loop_compat [OF run assms that] by force
  with emitted vs show ?thesis by blast
qed

text \<open>
  With \<^verbatim>\<open>ja\<close> as the only key of \<open>compatMap\<close>, the entry \<^verbatim>\<open>ja\<close> has a voice and the
  entry \<^verbatim>\<open>jw\<close> has none.
\<close>

theorem bare_code_iff_compat_witness:
  "(''ja'', ''Japanese'') \<in> set orig_langs \<and> CHR ''-'' \<notin> set ''ja'' \<and>
   (''jw'', ''Javanese'') \<in> set orig_langs \<and> CHR ''-'' \<notin> set ''jw'' \<and>
   (\<exists>vs. get_available_voices [''ja'' \<mapsto> ''ja_JP''] = Inr vs \<and>
      (\<exists>v \<in> set vs. gtts_lang v = ''ja'') \<and> \<not> (\<exists>v \<in> set vs. gtts_lang v = ''jw''))"
proof -
  have a: "(''ja'', ''Japanese'') \<in> set orig_langs" by (simp add: orig_langs_def)
  have b: "CHR ''-'' \<notin> set ''ja''" by simp
  have c: "(''jw'', ''Javanese'') \<in> set orig_langs" by (simp add: orig_langs_def)
  have d: "CHR ''-'' \<notin> set ''jw''" by simp
  from bare_code_iff_compat [OF a b, of "[''ja'' \<mapsto> ''ja_JP'']"]
       bare_code_iff_compat [OF c d, of "[''ja'' \<mapsto> ''ja_JP'']"] a b c d
  show ?thesis by auto
qed

text \<open>
  Claim C7. \<^verbatim>\<open>get_available_voices\<close> returns, every voice of its result has a
  non-empty standard code, and an entry of the table without a separator whose code
  \<open>compatMap\<close> does not map, or maps to the empty string, has no voice in the result.
\<close>

theorem voices_lang_nonempty:
  "\<exists>vs. get_available_voices compatMap = Inr vs \<and>
     (\<forall>v \<in> set vs. lang v \<noteq> []) \<and>
     (\<forall>(code, nm) \<in> set orig_langs.
        CHR ''-'' \<notin> set code \<and> (compatMap code = None \<or> compatMap code = Some []) \<longrightarrow>
        \<not> (\<exists>v \<in> set vs. gtts_lang v = code))"
proof -
  obtain vs where vs: "get_available_voices compatMap = Inr vs"
    using get_available_voices_returns by blast
  then have run: "voices_loop compatMap orig_langs [] = Inr vs"
    by (simp add: get_available_voices_def)
  have emitted: "lang v \<noteq> [] \<and>
      (CHR ''-'' \<notin> set (gtts_lang v) \<longrightarrow> compatMap (gtts_lang v) = Some (lang v))"
    if "v \<in> set vs" for v
    using voices_loop_sound [OF run that] by auto
  then have "\<forall>v \<in> set vs. lang v \<noteq> []" by blast
  moreover have "\<not> (\<exists>v \<in> set vs. gtts_lang v = code)"
    if "CHR ''-'' \<notin> set code" "compatMap code = None \<or> compatMap code = Some []" for code
    using emitted that by force
  ultimately show ?thesis using vs by blast
qed

text \<open>
  With \<^verbatim>\<open>ja\<close> mapped to \<^verbatim>\<open>ja_JP\<close> and \<^verbatim>\<open>jw\<close> mapped to the empty string, the voice of
  \<^verbatim>\<open>ja\<close> is in the result, and neither \<^verbatim>\<open>jw\<close> nor the unmapped \<^verbatim>\<open>af\<close> has a voice.
\<close>

theorem voices_lang_nonempty_witness:
  "\<exists>vs. get_available_voices [''ja'' \<mapsto> ''ja_JP'', ''jw'' \<mapsto> ''''] = Inr vs \<and>
     \<lparr>name = ''gTTS'', lang = ''ja_JP'', gtts_lang = ''ja''\<rparr> \<in> set vs \<and>
     (\<forall>v \<in> set vs. lang v \<noteq> []) \<and>
     \<not> (\<exists>v \<in> set vs. gtts_lang v = ''jw'') \<and> \<not> (\<exists>v \<in> set vs. gtts_lang v = ''af'')"
proof -
  let ?cm = "[''ja'' \<mapsto> ''ja_JP'', ''jw'' \<mapsto> '''']"
  have a: "(''jw'', ''Javanese'') \<in> set orig_langs" "(''af'', ''Afrikaans'') \<in> set orig_langs"
      "(''ja'', ''Japanese'') \<in> set orig_langs"
    by (simp_all add: orig_langs_def)
  obtain vs where vs: "get_available_voices ?cm = Inr vs"
    and ne: "\<forall>v \<in> set vs. lang v \<noteq> []"
    and dr: "\<forall>(code, nm) \<in> set orig_langs.
        CHR ''-'' \<notin> set code \<and> (?cm code = None \<or> ?cm code = Some []) \<longrightarrow>
        \<not> (\<exists>v \<in> set vs. gtts_lang v = code)"
    using voices_lang_nonempty [of ?cm] by blast
  from vs have run: "voices_loop ?cm orig_langs [] = Inr vs"
    by (simp add: get_available_voices_def)
  have ja: "\<lparr>name = ''gTTS'', lang = ''ja_JP'', gtts_lang = ''ja''\<rparr> \<in> set vs"
    by (rule voices_loop_compat [OF run a(3)]) simp_all
  from dr a(1) have "\<not> (\<exists>v \<in> set vs. gtts_lang v = ''jw'')" by fastforce
  moreover from dr a(2) have "\<not> (\<exists>v \<in> set vs. gtts_lang v = ''af'')" by fastforce
  ultimately show ?thesis using vs ne ja by blast
qed

section \<open>Properties of synthesis and completion\<close>

lemma float_ge_not_lt: "float_ge x y \<Longrightarrow> \<not> float_lt x y"
  by (cases x; cases y) auto

lemma example_match:
  "voice_for_tag example_env t = Some \<lparr>voice = example_voice, rank = 0\<rparr>"
  by (simp add: example_env_def)

lemma failing_match:
  "voice_for_tag failing_env t = Some \<lparr>voice = example_voice, rank = 0\<rparr>"
  by (simp add: failing_env_def example_env_def)

lemma strip_blank_text: "strip blank_text = []"
  by (simp add: strip_def is_space_def blank_text_def)

lemma strip_nbsp_text: "strip nbsp_text = []"
  by (simp add: strip_def is_space_def nbsp_text_def)

lemma strip_hello_text: "strip hello_text = [104, 101, 108, 108, 111]"
  by (simp add: strip_def is_space_def hello_text_def)

text \<open>A text is blank exactly when all its code points are whitespace.\<close>

lemma strip_empty_iff: "strip s = [] \<longleftrightarrow> list_all is_space s"
proof -
  have "set s = set (takeWhile is_space s) \<union> set (dropWhile is_space s)"
    by (metis set_append takeWhile_dropWhile_id)
  then show ?thesis
    by (auto simp: strip_def dropWhile_eq_Nil_conv list_all_iff
             dest: set_takeWhileD set_dropWhileD)
qed

text \<open>
  Claim C3. When the result of the future raises \<^verbatim>\<open>PlayerInterrupted\<close>, \<^verbatim>\<open>_on_done\<close>
  returns normally and leaves the state as it was: no file is inserted into the queue and
  the callback is not called.
\<close>

theorem on_done_interrupted: "on_done s (Failed PlayerInterrupted) = (Returned, s)"
  by (simp add: on_done_def)

text \<open>
  Claim C4. For a TTS tag with a matching voice whose text is empty after \<^verbatim>\<open>strip()\<close>,
  \<^verbatim>\<open>_play\<close> returns normally and leaves the state as it was: no file is written and the
  library is not called.
\<close>

theorem play_blank_noop:
  assumes "voice_for_tag e t = Some match" and "strip (field_text t) = []"
  shows "play e s (TTS t) = (Returned, s)"
  using assms by (simp add: play_def)

text \<open>The text of two spaces and the text of one no-break space are both blank.\<close>

theorem play_blank_noop_witness:
  "strip (field_text (example_tag blank_text (Finite 1))) = [] \<and>
   play example_env cached_state (TTS (example_tag blank_text (Finite 1))) = (Returned, cached_state) \<and>
   strip (field_text (example_tag nbsp_text (Finite 1))) = [] \<and>
   play failing_env fresh_state (TTS (example_tag nbsp_text (Finite 1))) = (Returned, fresh_state)"
proof -
  have b: "strip (field_text (example_tag blank_text (Finite 1))) = []"
    by (simp add: example_tag_def strip_blank_text)
  have c: "strip (field_text (example_tag nbsp_text (Finite 1))) = []"
    by (simp add: example_tag_def strip_nbsp_text)
  from play_blank_noop [OF example_match b] play_blank_noop [OF failing_match c] b c
  show ?thesis by simp
qed

text \<open>
  Claim C5. For a TTS tag with a matching voice and a text that is not blank, when the
  file at the computed path exists, \<^verbatim>\<open>_play\<close> returns normally and changes nothing but
  \<^verbatim>\<open>_tmpfile\<close>: the files and the effects are as before, so the library is not called and
  nothing is written.
\<close>

theorem play_cache_hit:
  assumes "voice_for_tag e t = Some match" and "strip (field_text t) \<noteq> []"
    and "temp_file_for_tag_and_voice e t (voice match) @ ''.mp3'' \<in> files s"
  shows "play e s (TTS t) =
           (Returned, s\<lparr>tmpfile := Some (temp_file_for_tag_and_voice e t (voice match) @ ''.mp3'')\<rparr>)"
  using assms by (simp add: play_def Let_def)

theorem play_cache_hit_witness:
  "play example_env cached_state (TTS (example_tag hello_text (Finite 1))) =
     (Returned, \<lparr>tmpfile = Some ''/tmp/tts-en-us.mp3'', files = {''/tmp/tts-en-us.mp3''},
                 queue = [], trace = []\<rparr>)"
proof -
  let ?t = "example_tag hello_text (Finite 1)"
  have b: "strip (field_text ?t) \<noteq> []"
    by (simp add: example_tag_def strip_hello_text)
  have c: "temp_file_for_tag_and_voice example_env ?t
             (voice \<lparr>voice = example_voice, rank = 0\<rparr>) @ ''.mp3'' \<in> files cached_state"
    by (simp add: example_env_def example_voice_def cached_state_def)
  from play_cache_hit [OF example_match b c] show ?thesis
    by (simp add: example_env_def example_voice_def cached_state_def)
qed

text \<open>
  Claim C6. For a TTS tag with a matching voice and a text that is not blank, when no
  file exists at the computed path, \<^verbatim>\<open>_play\<close> calls the library exactly once, with the
  text of the tag, the language of the voice, \<^verbatim>\<open>lang_check\<close> false and a flag \<^verbatim>\<open>slow\<close>
  that is true if and only if the speed is less than 1; the flag is false when the speed
  is at least 1.
\<close>

theorem play_slow_flag:
  assumes "voice_for_tag e t = Some match" and "strip (field_text t) \<noteq> []"
    and "temp_file_for_tag_and_voice e t (voice match) @ ''.mp3'' \<notin> files s"
  shows "\<exists>slow rest. trace (snd (play e s (TTS t))) =
             trace s @ GttsCall (field_text t) (gtts_lang (voice match)) False slow # rest \<and>
           (\<forall>ev \<in> set rest. \<forall>a b c d. ev \<noteq> GttsCall a b c d) \<and>
           (slow \<longleftrightarrow> float_lt (speed t) (Finite 1)) \<and>
           (float_ge (speed t) (Finite 1) \<longrightarrow> \<not> slow)"
  using assms by (auto simp: play_def Let_def float_ge_not_lt split: option.splits)

text \<open>
  At the speed one half the flag is true; at the speed 1 it is false, here with a library
  that fails after it has been called.
\<close>

theorem play_slow_flag_witness:
  "(\<exists>rest. trace (snd (play example_env fresh_state (TTS (example_tag hello_text (Finite (1 / 2)))))) =
      GttsCall hello_text ''en-us'' False True # rest) \<and>
   (\<exists>rest. trace (snd (play failing_env fresh_state (TTS (example_tag hello_text (Finite 1))))) =
      GttsCall hello_text ''en-us'' False False # rest)"
proof -
  let ?t = "example_tag hello_text (Finite (1 / 2))"
  let ?u = "example_tag hello_text (Finite 1)"
  have b: "strip (field_text ?t) \<noteq> []" "strip (field_text ?u) \<noteq> []"
    by (simp_all add: example_tag_def strip_hello_text)
  have c: "temp_file_for_tag_and_voice example_env ?t
             (voice \<lparr>voice = example_voice, rank = 0\<rparr>) @ ''.mp3'' \<notin> files fresh_state"
    by (simp add: fresh_state_def)
  have d: "temp_file_for_tag_and_voice failing_env ?u
             (voice \<lparr>voice = example_voice, rank = 0\<rparr>) @ ''.mp3'' \<notin> files fresh_state"
    by (simp add: fresh_state_def)
  from play_slow_flag [OF example_match b(1) c] have
    "\<exists>rest. trace (snd (play example_env fresh_state (TTS ?t))) =
       GttsCall hello_text ''en-us'' False True # rest"
    by (auto simp: example_tag_def example_voice_def fresh_state_def)
  moreover from play_slow_flag [OF failing_match b(2) d] have
    "\<exists>rest. trace (snd (play failing_env fresh_state (TTS ?u))) =
       GttsCall hello_text ''en-us'' False False # rest"
    by (auto simp: example_tag_def example_voice_def fresh_state_def)
  ultimately show ?thesis by blast
qed

text \<open>
  Claim C8. When the result of the future raises an error other than
  \<^verbatim>\<open>PlayerInterrupted\<close>, \<^verbatim>\<open>_on_done\<close> raises that error and leaves the state as it was:
  the callback is not called.
\<close>

theorem on_done_error_propagates:
  assumes "err \<noteq> PlayerInterrupted"
  shows "on_done s (Failed err) = (Raised err, s)"
  using assms by (simp add: on_done_def)

theorem on_done_error_propagates_witness:
  "LibraryError ''network'' \<noteq> PlayerInterrupted \<and>
   on_done playing_state (Failed (LibraryError ''network'')) =
     (Raised (LibraryError ''network''), playing_state)"
proof -
  have a: "LibraryError ''network'' \<noteq> PlayerInterrupted" by simp
  from on_done_error_propagates [OF a] a show ?thesis by simp
qed

subsection \<open>The completion handler after a successful operation\<close>

text \<open>
  When \<^verbatim>\<open>_tmpfile\<close> holds a path, \<^verbatim>\<open>_on_done\<close> on a future that succeeded returns
  normally after two effects, in this order: the path is inserted at the front of the
  queue, then the callback is called, once.
\<close>

lemma on_done_inserts_remembered:
  assumes "tmpfile s = Some path"
  shows "on_done s Done =
           (Returned, s\<lparr>queue := path # queue s, trace := trace s @ [InsertFile path, DoneCallback]\<rparr>)"
  using assms by (simp add: on_done_def Let_def)

text \<open>
  A successful operation does not always leave a path in \<^verbatim>\<open>_tmpfile\<close>: \<^verbatim>\<open>_play\<close>
  returns on a blank text before it assigns the attribute.

  Claim C9 says that after a successful operation \<^verbatim>\<open>_on_done\<close> inserts the file and then
  calls the callback once. On a player that has never computed a path, \<^verbatim>\<open>_play\<close> on a
  tag of two spaces returns normally, and \<^verbatim>\<open>_on_done\<close> on the future that succeeded
  raises \<^verbatim>\<open>AttributeError\<close>: the queue is as before and no effect is recorded, so
  nothing is inserted and the callback is not called.
\<close>

theorem on_done_after_blank_play:
  "play example_env fresh_state (TTS (example_tag blank_text (Finite 1))) = (Returned, fresh_state) \<and>
   on_done fresh_state Done = (Raised AttributeError, fresh_state) \<and>
   queue fresh_state = [] \<and> trace fresh_state = []"
  by (simp add: play_def on_done_def example_match example_tag_def strip_blank_text fresh_state_def)

text \<open>
  Claim C10. A call of \<^verbatim>\<open>_play\<close> on a TTS tag whose text is blank leaves \<^verbatim>\<open>_tmpfile\<close>
  as it was. So a successful \<^verbatim>\<open>_on_done\<close> after it inserts the path that an earlier call
  left there, and raises \<^verbatim>\<open>AttributeError\<close>, with nothing inserted and no callback, when
  the attribute was never assigned.
\<close>

theorem play_blank_keeps_tmpfile:
  assumes "strip (field_text t) = []" and "play e s (TTS t) = (r, s')"
  shows "tmpfile s' = tmpfile s \<and>
         (case tmpfile s of
            Some path \<Rightarrow> on_done s' Done =
              (Returned, s'\<lparr>queue := path # queue s', trace := trace s' @ [InsertFile path, DoneCallback]\<rparr>)
          | None \<Rightarrow> on_done s' Done = (Raised AttributeError, s'))"
  using assms by (auto simp: play_def on_done_def Let_def split: option.splits)

text \<open>
  On a player that has never computed a path the completion handler raises, here after a
  tag of one no-break space; on a player that remembers the path of an earlier request it
  inserts that path, here after a tag of two spaces.
\<close>

theorem play_blank_keeps_tmpfile_witness:
  "play example_env fresh_state (TTS (example_tag nbsp_text (Finite 1))) = (Returned, fresh_state) \<and>
   on_done fresh_state Done = (Raised AttributeError, fresh_state) \<and>
   play example_env playing_state (TTS (example_tag blank_text (Finite 1))) = (Returned, playing_state) \<and>
   fst (on_done playing_state Done) = Returned \<and>
   queue (snd (on_done playing_state Done)) = [''/tmp/tts-en-us.mp3'', ''next.mp3'']"
proof -
  let ?t = "example_tag nbsp_text (Finite 1)"
  let ?u = "example_tag blank_text (Finite 1)"
  have b: "strip (field_text ?t) = []"
    by (simp add: example_tag_def strip_nbsp_text)
  have c: "strip (field_text ?u) = []"
    by (simp add: example_tag_def strip_blank_text)
  have p1: "play example_env fresh_state (TTS ?t) = (Returned, fresh_state)"
    by (simp add: play_def example_match b)
  have p2: "play example_env playing_state (TTS ?u) = (Returned, playing_state)"
    by (simp add: play_def example_match c)
  from play_blank_keeps_tmpfile [OF b p1] have
    "on_done fresh_state Done = (Raised AttributeError, fresh_state)"
    by (simp add: fresh_state_def)
  moreover from play_blank_keeps_tmpfile [OF c p2] have
    "fst (on_done playing_state Done) = Returned \<and>
     queue (snd (on_done playing_state Done)) = [''/tmp/tts-en-us.mp3'', ''next.mp3'']"
    by (simp add: playing_state_def)
  ultimately show ?thesis using p1 p2 by blast
qed

end
